theory Spec2Isabelle
  imports
    Complex_Main
    "HOL-Library.Multiset"
    "HOL-Library.AList"
    "HOL-Library.List_Lexorder"
    "HOL-Library.Char_ord"
begin

section \<open>Data model (types/book.ts)\<close>

text \<open>
  The TypeScript union \<^verbatim>\<open>'want_to_read' | 'reading' | 'read'\<close> is a three-valued
  enumeration; \<open>status_name\<close> gives the string each value is at run time, which is what
  the shelf filter compares against.
\<close>

datatype ReadingStatus = Want_to_read | Reading | Read

fun status_name :: "ReadingStatus \<Rightarrow> string" where
  "status_name Want_to_read = ''want_to_read''"
| "status_name Reading = ''reading''"
| "status_name Read = ''read''"

text \<open>
  Optional fields (\<^verbatim>\<open>progress?\<close>, \<^verbatim>\<open>totalPages?\<close>, \<^verbatim>\<open>shelf?\<close>, ...) are options; \<open>None\<close>
  stands for both \<^verbatim>\<open>undefined\<close> and the \<^verbatim>\<open>null\<close> the database returns. Ratings are
  whole numbers (the star widget and the schema's integer column), so sums of ratings
  are exact and the quotient is modelled as a rational number.
\<close>

record Review =
  review_id :: string
  content :: string
  rating :: int
  review_dateAdded :: string

record Book =
  book_id :: string
  title :: string
  author :: string
  reviews :: "Review list"
  tags :: "string list"
  coverUrl :: string
  dateAdded :: string
  status :: ReadingStatus
  progress :: "nat option"
  totalPages :: "nat option"
  shelf :: "string option"
  isbn :: "string option"
  description :: "string option"

record ReadingGoal =
  year :: int
  target :: nat
  current :: nat

text \<open>
  Built-in functions of the JavaScript run time that the code calls but does not define
  are parameters of the model: nothing is assumed about them unless a theorem says so.
  \<open>getTime s\<close> is \<^verbatim>\<open>new Date(s).getTime()\<close>, \<open>getFullYear s\<close> and \<open>getMonth s\<close> are
  \<^verbatim>\<open>new Date(s).getFullYear()\<close> and \<^verbatim>\<open>new Date(s).getMonth()\<close>, \<open>currentYear\<close> is
  \<^verbatim>\<open>new Date().getFullYear()\<close> and \<open>startOfYear y\<close> is the time value of
  \<^verbatim>\<open>new Date(y, 0, 1)\<close>. Stored dates come from \<^verbatim>\<open>toISOString()\<close>, so they parse and
  \<open>getTime\<close> is a number.
\<close>

record runtime =
  toLowerCase :: "string \<Rightarrow> string"
  localeCompare :: "string \<Rightarrow> string \<Rightarrow> int"
  getTime :: "string \<Rightarrow> int"
  getFullYear :: "string \<Rightarrow> int"
  getMonth :: "string \<Rightarrow> nat"
  currentYear :: int
  startOfYear :: "int \<Rightarrow> int"

subsection \<open>getAverageRating\<close>

text \<open>
  \<^verbatim>\<open>if (!book.reviews || book.reviews.length === 0) return 0;
  const sum = book.reviews.reduce((acc, review) => acc + review.rating, 0);
  return sum / book.reviews.length;\<close>
  The first disjunct of the guard covers a missing \<^verbatim>\<open>reviews\<close> field, which the type
  \<^verbatim>\<open>Review[]\<close> excludes. The division is reached only with a non-zero length, so the
  quotient of the model is the quotient of the code.
\<close>

definition getAverageRating :: "Book \<Rightarrow> rat" where
  "getAverageRating book =
     (if length (reviews book) = 0 then 0
      else (let sum = foldl (\<lambda>acc review. acc + rating review) 0 (reviews book)
            in of_int sum / of_nat (length (reviews book))))"

text \<open>\<^verbatim>\<open>Math.round\<close>: the nearest integer, a tie going towards plus infinity.\<close>

definition Math_round :: "rat \<Rightarrow> int" where
  "Math_round x = \<lfloor>x + 1 / 2\<rfloor>"

section \<open>Filter/Sort View Builder (App.tsx, filteredBooks)\<close>

datatype SortOption = DateAdded | Rating | Title | Author

datatype SortDirection = Asc | Desc

text \<open>The state \<^verbatim>\<open>statusFilter\<close> has type \<^verbatim>\<open>ReadingStatus | 'all'\<close>.\<close>

datatype StatusFilter = All | Only ReadingStatus

text \<open>\<^verbatim>\<open>String.prototype.includes\<close>: the argument occurs as a contiguous substring.\<close>

fun startsWith :: "string \<Rightarrow> string \<Rightarrow> bool" where
  "startsWith s [] = True"
| "startsWith [] (c # q) = False"
| "startsWith (d # s) (c # q) = (d = c \<and> startsWith s q)"

fun str_includes :: "string \<Rightarrow> string \<Rightarrow> bool" where
  "str_includes [] q = (q = [])"
| "str_includes (d # s) q = (startsWith (d # s) q \<or> str_includes s q)"

text \<open>
  \<^verbatim>\<open>Array.prototype.sort\<close> with a comparison function is stable: elements that compare
  as 0 keep their input order. For a consistent comparison function every stable
  sorting algorithm returns the same array, here computed by insertion from the right.
\<close>

fun insert_sorted :: "('a \<Rightarrow> 'a \<Rightarrow> rat) \<Rightarrow> 'a \<Rightarrow> 'a list \<Rightarrow> 'a list" where
  "insert_sorted cmp x [] = [x]"
| "insert_sorted cmp x (y # ys) =
     (if cmp x y \<le> 0 then x # y # ys else y # insert_sorted cmp x ys)"

definition Array_sort :: "('a \<Rightarrow> 'a \<Rightarrow> rat) \<Rightarrow> 'a list \<Rightarrow> 'a list" where
  "Array_sort cmp xs = foldr (insert_sorted cmp) xs []"

text \<open>The \<^verbatim>\<open>switch (sortBy)\<close> of the comparison function.\<close>

definition comparison :: "runtime \<Rightarrow> SortOption \<Rightarrow> Book \<Rightarrow> Book \<Rightarrow> rat" where
  "comparison rt sortBy a b =
     (case sortBy of
        DateAdded \<Rightarrow> of_int (getTime rt (dateAdded a) - getTime rt (dateAdded b))
      | Rating \<Rightarrow> getAverageRating a - getAverageRating b
      | Title \<Rightarrow> of_int (localeCompare rt (title a) (title b))
      | Author \<Rightarrow> of_int (localeCompare rt (author a) (author b)))"

text \<open>\<^verbatim>\<open>return sortDirection === 'asc' ? comparison : -comparison;\<close>\<close>

definition compareBooks :: "runtime \<Rightarrow> SortOption \<Rightarrow> SortDirection \<Rightarrow> Book \<Rightarrow> Book \<Rightarrow> rat" where
  "compareBooks rt sortBy sortDirection a b =
     (if sortDirection = Asc then comparison rt sortBy a b else - comparison rt sortBy a b)"

definition builtinShelves :: "string list" where
  "builtinShelves = [''want_to_read'', ''reading'', ''read'']"

text \<open>The predicate of the search filter, for the lower-cased query.\<close>

definition matchesQuery :: "runtime \<Rightarrow> string \<Rightarrow> Book \<Rightarrow> bool" where
  "matchesQuery rt query book =
     (str_includes (toLowerCase rt (title book)) query
      \<or> str_includes (toLowerCase rt (author book)) query
      \<or> list_ex (\<lambda>tag. str_includes (toLowerCase rt tag) query) (tags book))"

text \<open>
  The memoised computation, as a function of the values it closes over. A filter is
  skipped when its state is falsy: the empty search string, \<^verbatim>\<open>'all'\<close>, a \<^verbatim>\<open>null\<close> or
  empty tag. The shelf filter compares the custom shelf for a name outside the three
  built-in ones and the status for a built-in name.
\<close>

definition filteredBooks ::
  "runtime \<Rightarrow> Book list \<Rightarrow> string \<Rightarrow> StatusFilter \<Rightarrow> string \<Rightarrow> string option
     \<Rightarrow> SortOption \<Rightarrow> SortDirection \<Rightarrow> Book list" where
  "filteredBooks rt books searchQuery statusFilter shelfFilter tagFilter sortBy sortDirection =
     (let result = books;
          result = (if searchQuery \<noteq> []
                    then (let query = toLowerCase rt searchQuery
                          in filter (matchesQuery rt query) result)
                    else result);
          result = (case statusFilter of
                      All \<Rightarrow> result
                    | Only s \<Rightarrow> filter (\<lambda>book. status book = s) result);
          result = (if shelfFilter \<noteq> ''all'' \<and> shelfFilter \<notin> set builtinShelves
                    then filter (\<lambda>book. shelf book = Some shelfFilter) result
                    else if shelfFilter \<in> set builtinShelves
                    then filter (\<lambda>book. status_name (status book) = shelfFilter) result
                    else result);
          result = (case tagFilter of
                      None \<Rightarrow> result
                    | Some t \<Rightarrow> if t \<noteq> [] then filter (\<lambda>book. t \<in> set (tags book)) result
                               else result)
      in Array_sort (compareBooks rt sortBy sortDirection) result)"

text \<open>
  Hypotheses of the sorting results. A comparison function is consistent when its sign
  is antisymmetric and "not greater" is transitive; \<open>no_ties\<close> says that no two
  positions of a list compare as 0.
\<close>

definition consistent_cmp :: "('a \<Rightarrow> 'a \<Rightarrow> rat) \<Rightarrow> bool" where
  "consistent_cmp cmp =
     ((\<forall>a b. (cmp a b < 0) = (0 < cmp b a))
      \<and> (\<forall>a b c. cmp a b \<le> 0 \<and> cmp b c \<le> 0 \<longrightarrow> cmp a c \<le> 0))"

definition consistent_localeCompare :: "runtime \<Rightarrow> bool" where
  "consistent_localeCompare rt =
     consistent_cmp (\<lambda>a b. of_int (localeCompare rt a b))"

fun no_ties :: "('a \<Rightarrow> 'a \<Rightarrow> rat) \<Rightarrow> 'a list \<Rightarrow> bool" where
  "no_ties cmp [] = True"
| "no_ties cmp (x # xs) = (list_all (\<lambda>y. cmp x y \<noteq> 0) xs \<and> no_ties cmp xs)"

text \<open>
  The conjunction of the filters that are switched on, used to describe the result of
  \<open>filteredBooks\<close> in the proofs.
\<close>

definition keeps :: "runtime \<Rightarrow> string \<Rightarrow> StatusFilter \<Rightarrow> string \<Rightarrow> string option \<Rightarrow> Book \<Rightarrow> bool" where
  "keeps rt searchQuery statusFilter shelfFilter tagFilter book =
     ((searchQuery \<noteq> [] \<longrightarrow> matchesQuery rt (toLowerCase rt searchQuery) book)
      \<and> (case statusFilter of All \<Rightarrow> True | Only s \<Rightarrow> status book = s)
      \<and> (if shelfFilter \<noteq> ''all'' \<and> shelfFilter \<notin> set builtinShelves
          then shelf book = Some shelfFilter
          else (shelfFilter \<in> set builtinShelves \<longrightarrow> status_name (status book) = shelfFilter))
      \<and> (case tagFilter of None \<Rightarrow> True | Some t \<Rightarrow> t \<noteq> [] \<longrightarrow> t \<in> set (tags book)))"

section \<open>Aggregate Statistics Engine (ReadingStats.tsx, the stats memo)\<close>

text \<open>
  Counters kept in an object with a fixed set of keys (\<^verbatim>\<open>booksByMonth\<close>, keys 0..11;
  \<^verbatim>\<open>ratingDist\<close>, keys 1..5). \<^verbatim>\<open>obj[k]++\<close> is only reached for a key that is present
  (a month of a Date; a rating the guard admits), where it adds one.
\<close>

definition increment :: "('k \<rightharpoonup> nat) \<Rightarrow> 'k \<Rightarrow> ('k \<rightharpoonup> nat)" where
  "increment m k = (case m k of Some c \<Rightarrow> m(k \<mapsto> c + 1) | None \<Rightarrow> m)"

definition average_of_rated :: "Book list \<Rightarrow> rat" where
  "average_of_rated ratedBooks =
     (if length ratedBooks > 0
      then foldl (\<lambda>sum b. sum + getAverageRating b) 0 ratedBooks / of_nat (length ratedBooks)
      else 0)"

text \<open>\<^verbatim>\<open>.filter(b => b.totalPages)\<close> keeps a defined, non-zero page count.\<close>

definition truthy :: "nat option \<Rightarrow> bool" where
  "truthy v = (case v of None \<Rightarrow> False | Some n \<Rightarrow> n \<noteq> 0)"

definition or_zero :: "nat option \<Rightarrow> nat" where
  "or_zero v = (case v of None \<Rightarrow> 0 | Some n \<Rightarrow> n)"

definition booksByMonth_of :: "runtime \<Rightarrow> Book list \<Rightarrow> (nat \<rightharpoonup> nat)" where
  "booksByMonth_of rt readBooks =
     foldl (\<lambda>m book. if getFullYear rt (dateAdded book) = currentYear rt
                      then increment m (getMonth rt (dateAdded book)) else m)
       (map_of (map (\<lambda>i. (i, 0)) [0..<12])) readBooks"

subsection \<open>Tag counts\<close>

text \<open>
  \<^verbatim>\<open>const tagCounts: Record<string, number> = {};
  books.forEach(book => { book.tags.forEach(tag => {
    tagCounts[tag] = (tagCounts[tag] || 0) + 1; }); });\<close>
  \<^verbatim>\<open>tagCounts\<close> is an ordinary object, so reading \<^verbatim>\<open>tagCounts[tag]\<close> falls back to
  \<^verbatim>\<open>Object.prototype\<close> when the object has no own property of that name. The own
  properties are an association list in creation order; a value is a number or, after the
  fallback, a piece of text. For a name that \<^verbatim>\<open>Object.prototype\<close> defines, the value read
  is a function or an object: it is truthy, \<^verbatim>\<open>+ 1\<close> concatenates its text with \<^verbatim>\<open>"1"\<close>, and
  the assignment stores that text as an own property, except for \<^verbatim>\<open>__proto__\<close>, whose
  setter ignores a value that is not an object. A stored text is a non-empty string,
  truthy again, and grows by another \<^verbatim>\<open>"1"\<close>.
\<close>

datatype TagCount = Count nat | Text

definition object_prototype_keys :: "string list" where
  "object_prototype_keys =
     [''constructor'', ''__defineGetter__'', ''__defineSetter__'', ''hasOwnProperty'',
      ''__lookupGetter__'', ''__lookupSetter__'', ''isPrototypeOf'',
      ''propertyIsEnumerable'', ''toString'', ''valueOf'', ''__proto__'',
      ''toLocaleString'']"

definition countTag :: "(string \<times> TagCount) list \<Rightarrow> string \<Rightarrow> (string \<times> TagCount) list" where
  "countTag tagCounts tag =
     (case map_of tagCounts tag of
        Some (Count n) \<Rightarrow> AList.update tag (Count (n + 1)) tagCounts
      | Some Text \<Rightarrow> AList.update tag Text tagCounts
      | None \<Rightarrow>
          if tag \<in> set object_prototype_keys
          then (if tag = ''__proto__'' then tagCounts else AList.update tag Text tagCounts)
          else AList.update tag (Count 1) tagCounts)"

definition tagCounts_of :: "Book list \<Rightarrow> (string \<times> TagCount) list" where
  "tagCounts_of books = foldl (\<lambda>tagCounts book. foldl countTag tagCounts (tags book)) [] books"

text \<open>
  \<^verbatim>\<open>Object.entries\<close> lists the own properties: first the keys that are array indices
  (canonical decimal numerals below \<open>2^32 - 1\<close>) in ascending numeric order, then the
  other keys in creation order.
\<close>

definition is_digit :: "char \<Rightarrow> bool" where
  "is_digit c = (CHR ''0'' \<le> c \<and> c \<le> CHR ''9'')"

definition decimal :: "string \<Rightarrow> nat" where
  "decimal s = foldl (\<lambda>n c. 10 * n + (of_char c - 48)) 0 s"

definition is_array_index :: "string \<Rightarrow> bool" where
  "is_array_index s =
     (s \<noteq> [] \<and> list_all is_digit s \<and> (s = ''0'' \<or> hd s \<noteq> CHR ''0'')
      \<and> decimal s < 2 ^ 32 - 1)"

definition Object_entries :: "(string \<times> 'v) list \<Rightarrow> (string \<times> 'v) list" where
  "Object_entries obj =
     sort_key (\<lambda>p. decimal (fst p)) (filter (\<lambda>p. is_array_index (fst p)) obj)
     @ filter (\<lambda>p. \<not> is_array_index (fst p)) obj"

text \<open>
  \<^verbatim>\<open>.sort((a, b) => b[1] - a[1]).slice(0, 5)\<close>. A difference with a text operand is
  \<^verbatim>\<open>NaN\<close>, which the sort reads as 0 (the order is then left to the implementation; no
  result below depends on it).
\<close>

fun count_difference :: "TagCount \<Rightarrow> TagCount \<Rightarrow> rat" where
  "count_difference (Count m) (Count n) = of_nat m - of_nat n"
| "count_difference _ _ = 0"

definition topTags_of :: "(string \<times> TagCount) list \<Rightarrow> (string \<times> TagCount) list" where
  "topTags_of tagCounts =
     take 5 (Array_sort (\<lambda>a b. count_difference (snd b) (snd a)) (Object_entries tagCounts))"

text \<open>
  The sum of the per-tag counts, when every count is a number (\<open>None\<close> otherwise).
\<close>

fun sum_counts :: "(string \<times> TagCount) list \<Rightarrow> nat option" where
  "sum_counts [] = Some 0"
| "sum_counts ((k, Count n) # kvs) = map_option (\<lambda>s. n + s) (sum_counts kvs)"
| "sum_counts ((k, Text) # kvs) = None"

subsection \<open>Rating distribution\<close>

text \<open>
  \<^verbatim>\<open>const ratingDist: Record<number, number> = { 1: 0, 2: 0, 3: 0, 4: 0, 5: 0 };
  ratedBooks.forEach(book => {
    const rating = Math.round(getAverageRating(book));
    if (rating >= 1 && rating <= 5) { ratingDist[rating]++; } });\<close>
\<close>

definition ratingDist_of :: "Book list \<Rightarrow> (int \<rightharpoonup> nat)" where
  "ratingDist_of ratedBooks =
     foldl (\<lambda>dist book. let r = Math_round (getAverageRating book)
                         in if r \<ge> 1 \<and> r \<le> 5 then increment dist r else dist)
       [1 \<mapsto> 0, 2 \<mapsto> 0, 3 \<mapsto> 0, 4 \<mapsto> 0, 5 \<mapsto> 0] ratedBooks"

subsection \<open>The stats object\<close>

record Stats =
  totalRead :: nat
  totalReading :: nat
  totalWantToRead :: nat
  avgRating :: rat
  stats_totalPages :: nat
  pagesInProgress :: nat
  booksByMonth :: "nat \<rightharpoonup> nat"
  topTags :: "(string \<times> TagCount) list"
  ratingDist :: "int \<rightharpoonup> nat"
  totalReviews :: nat

definition stats :: "runtime \<Rightarrow> Book list \<Rightarrow> Stats" where
  "stats rt books =
     (let readBooks = filter (\<lambda>b. status b = Read) books;
          readingBooks = filter (\<lambda>b. status b = Reading) books;
          wantToRead = filter (\<lambda>b. status b = Want_to_read) books;
          ratedBooks = filter (\<lambda>b. length (reviews b) > 0) readBooks
      in \<lparr> totalRead = length readBooks,
           totalReading = length readingBooks,
           totalWantToRead = length wantToRead,
           avgRating = average_of_rated ratedBooks,
           stats_totalPages =
             foldl (\<lambda>sum b. sum + or_zero (totalPages b)) 0
               (filter (\<lambda>b. truthy (totalPages b)) readBooks),
           pagesInProgress =
             foldl (\<lambda>sum b. sum + or_zero (progress b)) 0
               (filter (\<lambda>b. truthy (progress b)) readingBooks),
           booksByMonth = booksByMonth_of rt readBooks,
           topTags = topTags_of (tagCounts_of books),
           ratingDist = ratingDist_of ratedBooks,
           totalReviews = foldl (\<lambda>sum b. sum + length (reviews b)) 0 books \<rparr>)"

text \<open>
  The rating distribution in the words of the specification, for comparison: every book
  with at least one review, under its rounded average clamped to 1..5.
\<close>

definition ratingDistribution_spec :: "Book list \<Rightarrow> int \<Rightarrow> nat" where
  "ratingDistribution_spec books k =
     length (filter (\<lambda>b. reviews b \<noteq> []
                          \<and> max 1 (min 5 (Math_round (getAverageRating b))) = k) books)"

section \<open>Reading Goal Synchronizer (backend routes)\<close>

text \<open>
  The goal table has the year as its unique key. \<^verbatim>\<open>upsert\<close> updates \<^verbatim>\<open>current\<close> of the
  row of the current year, or creates the row with target 24. The handler answers with
  the row. A failing database call is outside the model (the handler catches it, writes
  nothing and answers 500).
\<close>

type_synonym goal_table = "int \<rightharpoonup> ReadingGoal"

definition upsert_current :: "int \<Rightarrow> nat \<Rightarrow> goal_table \<Rightarrow> goal_table \<times> ReadingGoal" where
  "upsert_current y n goals =
     (let goal = (case goals y of
                    Some g \<Rightarrow> g\<lparr>current := n\<rparr>
                  | None \<Rightarrow> \<lparr>year = y, target = 24, current = n\<rparr>)
      in (goals(y \<mapsto> goal), goal))"

text \<open>routes/reading-goal.ts, the router that index.ts mounts: all books marked read.\<close>

definition sync_reading_goal :: "runtime \<Rightarrow> Book list \<Rightarrow> goal_table \<Rightarrow> goal_table \<times> ReadingGoal" where
  "sync_reading_goal rt db_books goals =
     (let totalBooksRead = length (filter (\<lambda>b. status b = Read) db_books)
      in upsert_current (currentYear rt) totalBooksRead goals)"

text \<open>
  routes/goals.ts, a router that index.ts does not mount: books marked read whose
  \<^verbatim>\<open>dateAdded\<close> lies in the current year.
\<close>

definition sync_goals :: "runtime \<Rightarrow> Book list \<Rightarrow> goal_table \<Rightarrow> goal_table \<times> ReadingGoal" where
  "sync_goals rt db_books goals =
     (let booksReadThisYear =
            length (filter (\<lambda>b. status b = Read
                               \<and> startOfYear rt (currentYear rt) \<le> getTime rt (dateAdded b)
                               \<and> getTime rt (dateAdded b) < startOfYear rt (currentYear rt + 1))
                      db_books)
      in upsert_current (currentYear rt) booksReadThisYear goals)"

section \<open>Status change (App.tsx, handleChangeStatus)\<close>

text \<open>
  The object \<^verbatim>\<open>updates\<close> that \<^verbatim>\<open>handleChangeStatus\<close> builds always has the key
  \<^verbatim>\<open>status\<close>; the key \<^verbatim>\<open>progress\<close> is absent, present with the value \<^verbatim>\<open>undefined\<close>, or
  present with a number.
\<close>

datatype 'a field_update = Absent | Undefined | Value 'a

record BookUpdates =
  upd_status :: ReadingStatus
  upd_progress :: "nat field_update"

text \<open>
  \<^verbatim>\<open>const book = books.find(b => b.id === bookId);
  const updates: Partial<Book> = { status };
  if (status === 'read' && book?.totalPages) { updates.progress = book.totalPages; }
  if (status === 'want_to_read') { updates.progress = undefined; }\<close>
\<close>

definition status_updates :: "Book list \<Rightarrow> string \<Rightarrow> ReadingStatus \<Rightarrow> BookUpdates" where
  "status_updates books bookId newStatus =
     (let book = find (\<lambda>b. book_id b = bookId) books;
          updates = \<lparr>upd_status = newStatus, upd_progress = Absent\<rparr>;
          updates = (case book of
                       Some b \<Rightarrow>
                         (case totalPages b of
                            Some n \<Rightarrow> if newStatus = Read \<and> n \<noteq> 0
                                      then updates\<lparr>upd_progress := Value n\<rparr> else updates
                          | None \<Rightarrow> updates)
                     | None \<Rightarrow> updates);
          updates = (if newStatus = Want_to_read
                     then updates\<lparr>upd_progress := Undefined\<rparr> else updates)
      in updates)"

subsection \<open>The version that keeps the books in local storage\<close>

text \<open>
  \<^verbatim>\<open>setBooks(prev => prev.map(book => book.id === bookId ? { ...book, ...updates } : book))\<close>:
  the spread copies every key that is present in \<^verbatim>\<open>updates\<close>, also one whose value is
  \<^verbatim>\<open>undefined\<close>.
\<close>

definition spread_updates :: "Book \<Rightarrow> BookUpdates \<Rightarrow> Book" where
  "spread_updates book updates =
     (let book = book\<lparr>status := upd_status updates\<rparr>
      in case upd_progress updates of
           Absent \<Rightarrow> book
         | Undefined \<Rightarrow> book\<lparr>progress := None\<rparr>
         | Value n \<Rightarrow> book\<lparr>progress := Some n\<rparr>)"

definition handleEditBook_local :: "string \<Rightarrow> BookUpdates \<Rightarrow> Book list \<Rightarrow> Book list" where
  "handleEditBook_local bookId updates books =
     map (\<lambda>book. if book_id book = bookId then spread_updates book updates else book) books"

definition handleChangeStatus_local :: "string \<Rightarrow> ReadingStatus \<Rightarrow> Book list \<Rightarrow> Book list" where
  "handleChangeStatus_local bookId newStatus books =
     handleEditBook_local bookId (status_updates books bookId newStatus) books"

subsection \<open>The version that stores the books on the server\<close>

text \<open>
  \<^verbatim>\<open>api.updateBook\<close> sends \<^verbatim>\<open>JSON.stringify(updates)\<close>: a key whose value is
  \<^verbatim>\<open>undefined\<close> is left out of the JSON text, so the server receives it as absent.
\<close>

definition JSON_stringify_parse :: "BookUpdates \<Rightarrow> BookUpdates" where
  "JSON_stringify_parse updates =
     (case upd_progress updates of
        Undefined \<Rightarrow> updates\<lparr>upd_progress := Absent\<rparr>
      | _ \<Rightarrow> updates)"

text \<open>
  \<^verbatim>\<open>PUT /api/books/:id\<close> (routes/books.ts): 404 for an unknown id; each field is written
  only under \<^verbatim>\<open>if (updates.f !== undefined)\<close>; the answer is the stored row (the
  order of its reviews and the format of its dates are not modelled).
\<close>

datatype api_error = NotFound

definition put_book :: "string \<Rightarrow> BookUpdates \<Rightarrow> Book list \<Rightarrow> api_error + (Book \<times> Book list)" where
  "put_book bookId updates db_books =
     (case find (\<lambda>b. book_id b = bookId) db_books of
        None \<Rightarrow> Inl NotFound
      | Some existing \<Rightarrow>
          (let row = existing\<lparr>status := upd_status updates\<rparr>;
               row = (case upd_progress updates of
                        Value n \<Rightarrow> row\<lparr>progress := Some n\<rparr>
                      | _ \<Rightarrow> row)
           in Inr (row, map (\<lambda>b. if book_id b = bookId then row else b) db_books)))"

text \<open>
  The client state (\<^verbatim>\<open>books\<close>, \<^verbatim>\<open>readingGoal\<close>) and the two tables of the server.
  \<^verbatim>\<open>handleEditBook\<close> replaces the book by the server's answer and, since
  \<^verbatim>\<open>updates.status\<close> is set, synchronises the reading goal. A failed request throws and
  leaves the state as it was. The book selected in the dialog is display state and is
  left out.
\<close>

record AppState =
  client_books :: "Book list"
  client_goal :: ReadingGoal
  server_books :: "Book list"
  server_goals :: goal_table

definition handleEditBook_api :: "runtime \<Rightarrow> string \<Rightarrow> BookUpdates \<Rightarrow> AppState \<Rightarrow> api_error + AppState" where
  "handleEditBook_api rt bookId updates st =
     (case put_book bookId (JSON_stringify_parse updates) (server_books st) of
        Inl e \<Rightarrow> Inl e
      | Inr (updatedBook, db_books) \<Rightarrow>
          (let (goals, updatedGoal) = sync_reading_goal rt db_books (server_goals st)
           in Inr \<lparr> client_books =
                       map (\<lambda>book. if book_id book = bookId then updatedBook else book)
                         (client_books st),
                     client_goal = updatedGoal,
                     server_books = db_books,
                     server_goals = goals \<rparr>))"

definition handleChangeStatus_api :: "runtime \<Rightarrow> string \<Rightarrow> ReadingStatus \<Rightarrow> AppState \<Rightarrow> api_error + AppState" where
  "handleChangeStatus_api rt bookId newStatus st =
     handleEditBook_api rt bookId (status_updates (client_books st) bookId newStatus) st"

text \<open>The progress of a book of the client state, by id.\<close>

definition progress_of :: "string \<Rightarrow> Book list \<Rightarrow> nat option" where
  "progress_of bookId books =
     (case find (\<lambda>b. book_id b = bookId) books of None \<Rightarrow> None | Some b \<Rightarrow> progress b)"

section \<open>Arrays in a store\<close>

text \<open>
  To state that a computation leaves its input array alone, arrays live in a store: a
  reference is an address, \<^verbatim>\<open>[...xs]\<close> and \<^verbatim>\<open>xs.filter(p)\<close> allocate a new array, and
  \<^verbatim>\<open>xs.sort(cmp)\<close> overwrites the array at the address of \<^verbatim>\<open>xs\<close>. Neither computation
  assigns to a field of a book, so the elements are values.
\<close>

type_synonym addr = nat

record store =
  arrays :: "addr \<rightharpoonup> Book list"
  next_addr :: addr

definition read_array :: "store \<Rightarrow> addr \<Rightarrow> Book list" where
  "read_array h a = (case arrays h a of Some xs \<Rightarrow> xs | None \<Rightarrow> [])"

definition new_array :: "Book list \<Rightarrow> store \<Rightarrow> addr \<times> store" where
  "new_array xs h =
     (next_addr h, h\<lparr>arrays := (arrays h)(next_addr h \<mapsto> xs), next_addr := Suc (next_addr h)\<rparr>)"

definition array_spread :: "addr \<Rightarrow> store \<Rightarrow> addr \<times> store" where
  "array_spread a h = new_array (read_array h a) h"

definition array_filter :: "(Book \<Rightarrow> bool) \<Rightarrow> addr \<Rightarrow> store \<Rightarrow> addr \<times> store" where
  "array_filter p a h = new_array (filter p (read_array h a)) h"

definition array_sort :: "(Book \<Rightarrow> Book \<Rightarrow> rat) \<Rightarrow> addr \<Rightarrow> store \<Rightarrow> store" where
  "array_sort cmp a h = h\<lparr>arrays := (arrays h)(a \<mapsto> Array_sort cmp (read_array h a))\<rparr>"

text \<open>Every allocated address lies below the next free one.\<close>

definition wf_store :: "store \<Rightarrow> bool" where
  "wf_store h = (\<forall>a. a \<ge> next_addr h \<longrightarrow> arrays h a = None)"

text \<open>
  The invariant of a computation that started in the store \<open>h0\<close> and now holds the
  array \<open>xs\<close> at a reference allocated since: the arrays of \<open>h0\<close> are as they were.
\<close>

definition frame_inv :: "store \<Rightarrow> Book list \<Rightarrow> addr \<times> store \<Rightarrow> bool" where
  "frame_inv h0 xs rh =
     (wf_store (snd rh) \<and> next_addr h0 \<le> fst rh \<and> fst rh < next_addr (snd rh)
      \<and> arrays (snd rh) (fst rh) = Some xs
      \<and> (\<forall>b. b < next_addr h0 \<longrightarrow> arrays (snd rh) b = arrays h0 b))"

text \<open>\<^verbatim>\<open>filteredBooks\<close> on the store: \<open>books\<close> is the address of the input array.\<close>

definition filteredBooks_store ::
  "runtime \<Rightarrow> addr \<Rightarrow> string \<Rightarrow> StatusFilter \<Rightarrow> string \<Rightarrow> string option
     \<Rightarrow> SortOption \<Rightarrow> SortDirection \<Rightarrow> store \<Rightarrow> addr \<times> store" where
  "filteredBooks_store rt books searchQuery statusFilter shelfFilter tagFilter sortBy sortDirection h =
     (let (result, h) = array_spread books h;
          (result, h) = (if searchQuery \<noteq> []
                         then (let query = toLowerCase rt searchQuery
                               in array_filter (matchesQuery rt query) result h)
                         else (result, h));
          (result, h) = (case statusFilter of
                           All \<Rightarrow> (result, h)
                         | Only s \<Rightarrow> array_filter (\<lambda>book. status book = s) result h);
          (result, h) = (if shelfFilter \<noteq> ''all'' \<and> shelfFilter \<notin> set builtinShelves
                         then array_filter (\<lambda>book. shelf book = Some shelfFilter) result h
                         else if shelfFilter \<in> set builtinShelves
                         then array_filter (\<lambda>book. status_name (status book) = shelfFilter) result h
                         else (result, h));
          (result, h) = (case tagFilter of
                           None \<Rightarrow> (result, h)
                         | Some t \<Rightarrow> if t \<noteq> []
                                    then array_filter (\<lambda>book. t \<in> set (tags book)) result h
                                    else (result, h));
          h = array_sort (compareBooks rt sortBy sortDirection) result h
      in (result, h))"

text \<open>
  The stats memo on the store: six calls of \<^verbatim>\<open>filter\<close>, each a new array; \<^verbatim>\<open>reduce\<close>
  and \<^verbatim>\<open>forEach\<close> only read. The objects it builds hold numbers, not books.
\<close>

definition stats_store :: "runtime \<Rightarrow> addr \<Rightarrow> store \<Rightarrow> Stats \<times> store" where
  "stats_store rt books h =
     (let (readBooks, h) = array_filter (\<lambda>b. status b = Read) books h;
          (readingBooks, h) = array_filter (\<lambda>b. status b = Reading) books h;
          (wantToRead, h) = array_filter (\<lambda>b. status b = Want_to_read) books h;
          (ratedBooks, h) = array_filter (\<lambda>b. length (reviews b) > 0) readBooks h;
          (withPages, h) = array_filter (\<lambda>b. truthy (totalPages b)) readBooks h;
          (withProgress, h) = array_filter (\<lambda>b. truthy (progress b)) readingBooks h
      in (\<lparr> totalRead = length (read_array h readBooks),
             totalReading = length (read_array h readingBooks),
             totalWantToRead = length (read_array h wantToRead),
             avgRating = average_of_rated (read_array h ratedBooks),
             stats_totalPages =
               foldl (\<lambda>sum b. sum + or_zero (totalPages b)) 0 (read_array h withPages),
             pagesInProgress =
               foldl (\<lambda>sum b. sum + or_zero (progress b)) 0 (read_array h withProgress),
             booksByMonth = booksByMonth_of rt (read_array h readBooks),
             topTags = topTags_of (tagCounts_of (read_array h books)),
             ratingDist = ratingDist_of (read_array h ratedBooks),
             totalReviews =
               foldl (\<lambda>sum b. sum + length (reviews b)) 0 (read_array h books) \<rparr>, h))"

section \<open>Example data\<close>

text \<open>
  An instance of the run-time parameters, for evaluating the model on concrete data:
  ASCII lower-casing, comparison of strings by character codes, and dates
  \<^verbatim>\<open>YYYY-MM-DD\<close> numbered \<open>YYYYMMDD\<close>, which orders them as their time values do.
\<close>

definition example_runtime :: runtime where
  "example_runtime =
     \<lparr> toLowerCase = map (\<lambda>c. if CHR ''A'' \<le> c \<and> c \<le> CHR ''Z''
                                then char_of (of_char c + (32::nat)) else c),
       localeCompare = (\<lambda>a b. if a = b then 0 else if a < b then - 1 else 1),
       getTime = (\<lambda>s. int (decimal (filter is_digit s))),
       getFullYear = (\<lambda>s. int (decimal (take 4 s))),
       getMonth = (\<lambda>s. decimal (take 2 (drop 5 s)) - 1),
       currentYear = 2025,
       startOfYear = (\<lambda>y. y * 10000 + 101) \<rparr>"

definition book_dune :: Book where
  "book_dune =
     \<lparr> book_id = ''1'', title = ''Dune'', author = ''Frank Herbert'',
       reviews = [\<lparr>review_id = ''r1-1'', content = [], rating = 5, review_dateAdded = ''2024-02-20''\<rparr>],
       tags = [''SciFi'', ''Classic''], coverUrl = [], dateAdded = ''2024-02-20'', status = Read,
       progress = Some 412, totalPages = Some 412, shelf = None, isbn = None, description = None \<rparr>"

definition book_emma :: Book where
  "book_emma =
     \<lparr> book_id = ''2'', title = ''Emma'', author = ''Jane Austen'',
       reviews = [\<lparr>review_id = ''r2-1'', content = [], rating = 3, review_dateAdded = ''2023-05-15''\<rparr>],
       tags = [''Classic''], coverUrl = [], dateAdded = ''2023-05-15'', status = Read,
       progress = Some 474, totalPages = Some 474, shelf = None, isbn = None, description = None \<rparr>"

definition book_ulysses :: Book where
  "book_ulysses =
     \<lparr> book_id = ''3'', title = ''Ulysses'', author = ''James Joyce'',
       reviews = [],
       tags = [''Classic'', ''Modernism''], coverUrl = [], dateAdded = ''2025-01-10'', status = Want_to_read,
       progress = None, totalPages = None, shelf = None, isbn = None, description = None \<rparr>"

definition book_middlemarch :: Book where
  "book_middlemarch =
     \<lparr> book_id = ''4'', title = ''Middlemarch'', author = ''George Eliot'',
       reviews = [\<lparr>review_id = ''r4-1'', content = [], rating = 4, review_dateAdded = ''2025-03-01''\<rparr>],
       tags = [''Classic''], coverUrl = [], dateAdded = ''2025-03-01'', status = Reading,
       progress = Some 120, totalPages = Some 300, shelf = None, isbn = None, description = None \<rparr>"

definition book_persuasion :: Book where
  "book_persuasion =
     \<lparr> book_id = ''5'', title = ''Persuasion'', author = ''Jane Austen'',
       reviews = [\<lparr>review_id = ''r5-1'', content = [], rating = 4, review_dateAdded = ''2022-09-20''\<rparr>],
       tags = [''Classic'', ''Romance''], coverUrl = [], dateAdded = ''2022-09-20'', status = Read,
       progress = Some 249, totalPages = Some 249, shelf = None, isbn = None, description = None \<rparr>"

definition book_patterns :: Book where
  "book_patterns =
     \<lparr> book_id = ''6'', title = ''Design Patterns'', author = ''Erich Gamma'',
       reviews = [],
       tags = [''Programming'', ''constructor''], coverUrl = [], dateAdded = ''2025-04-02'', status = Want_to_read,
       progress = None, totalPages = Some 395, shelf = None, isbn = None, description = None \<rparr>"

definition book_unrated :: Book where
  "book_unrated =
     \<lparr> book_id = ''7'', title = ''Walden'', author = ''Henry David Thoreau'',
       reviews = [\<lparr>review_id = ''r7-1'', content = ''Slow.'', rating = 0, review_dateAdded = ''2024-06-01''\<rparr>],
       tags = [''Essays''], coverUrl = [], dateAdded = ''2024-06-01'', status = Read,
       progress = None, totalPages = None, shelf = None, isbn = None, description = None \<rparr>"

definition example_state :: AppState where
  "example_state =
     \<lparr> client_books = [book_dune, book_middlemarch],
       client_goal = \<lparr>year = 2025, target = 24, current = 1\<rparr>,
       server_books = [book_dune, book_middlemarch],
       server_goals = [2025 \<mapsto> \<lparr>year = 2025, target = 24, current = 1\<rparr>] \<rparr>"

definition example_store :: store where
  "example_store =
     \<lparr> arrays = [0 \<mapsto> [book_dune, book_emma, book_ulysses]], next_addr = 1 \<rparr>"

section \<open>Average rating\<close>

lemma foldl_rating_sum:
  "foldl (\<lambda>acc review. acc + rating review) a rs = a + sum_list (map rating rs)"
  by (induction rs arbitrary: a) simp_all

lemma sum_list_rating_bounds:
  assumes "\<forall>r \<in> set rs. 1 \<le> rating r \<and> rating r \<le> 5"
  shows "int (length rs) \<le> sum_list (map rating rs) \<and> sum_list (map rating rs) \<le> 5 * int (length rs)"
  using assms by (induction rs) auto

text \<open>
  Claim C4. The per-book average rating is the arithmetic mean of the ratings of the
  book's reviews, and exactly 0 for a book without reviews (a number in every case: the
  function has no failing branch); when every rating lies in 1..5 the average lies in
  the interval from 0 to 5.
\<close>

theorem C4_average_rating:
  "getAverageRating book =
     (if reviews book = [] then 0
      else of_int (sum_list (map rating (reviews book))) / of_nat (length (reviews book)))
   \<and> ((\<forall>r \<in> set (reviews book). 1 \<le> rating r \<and> rating r \<le> 5)
        \<longrightarrow> 0 \<le> getAverageRating book \<and> getAverageRating book \<le> 5)"
proof (cases "reviews book = []")
  case True
  then show ?thesis by (simp add: getAverageRating_def)
next
  case False
  let ?rs = "reviews book"
  let ?n = "length ?rs"
  have npos: "0 < ?n" using False by simp
  have avg: "getAverageRating book = of_int (sum_list (map rating ?rs)) / of_nat ?n"
    using False by (simp add: getAverageRating_def foldl_rating_sum)
  have bounds: "0 \<le> getAverageRating book \<and> getAverageRating book \<le> 5"
    if h: "\<forall>r \<in> set ?rs. 1 \<le> rating r \<and> rating r \<le> 5"
  proof -
    from sum_list_rating_bounds [OF h]
    have lo: "int ?n \<le> sum_list (map rating ?rs)"
      and hi: "sum_list (map rating ?rs) \<le> 5 * int ?n" by simp_all
    have lo': "(0::rat) \<le> of_int (sum_list (map rating ?rs))"
      using lo by simp
    have "(of_int (sum_list (map rating ?rs)) :: rat) \<le> of_int (5 * int ?n)"
      using hi by (simp only: of_int_le_iff)
    then have hi': "(of_int (sum_list (map rating ?rs)) :: rat) \<le> 5 * of_nat ?n"
      by simp
    have "0 \<le> (of_int (sum_list (map rating ?rs)) :: rat) / of_nat ?n"
      using lo' by simp
    moreover have "(of_int (sum_list (map rating ?rs)) :: rat) / of_nat ?n \<le> 5"
      using hi' npos by (simp add: divide_le_eq)
    ultimately show ?thesis using avg by simp
  qed
  show ?thesis using avg False bounds by simp
qed


text \<open>A book with one review of rating 5, and a book without reviews.\<close>

theorem C4_witness:
  "getAverageRating book_dune = 5
   \<and> getAverageRating book_ulysses = 0
   \<and> 0 \<le> getAverageRating book_dune \<and> getAverageRating book_dune \<le> 5"
  using C4_average_rating [of book_dune] C4_average_rating [of book_ulysses]
  by (simp add: book_dune_def book_ulysses_def)

section \<open>Sorting\<close>

lemma mset_insert_sorted: "mset (insert_sorted cmp x ys) = add_mset x (mset ys)"
  by (induction ys) simp_all

lemma mset_Array_sort: "mset (Array_sort cmp xs) = mset xs"
  by (induction xs) (simp_all add: Array_sort_def mset_insert_sorted)

lemma set_insert_sorted: "set (insert_sorted cmp x ys) = insert x (set ys)"
  by (induction ys) auto

lemma consistent_sign: "consistent_cmp cmp \<Longrightarrow> (cmp a b < 0) = (0 < cmp b a)"
  unfolding consistent_cmp_def by blast

lemma consistent_refl: 
  assumes "consistent_cmp cmp" shows "cmp a a = 0"
  using consistent_sign [OF assms, of a a] by linarith

lemma consistent_flip: 
  assumes "consistent_cmp cmp" "0 \<le> cmp a b" shows "cmp b a \<le> 0"
  using consistent_sign [OF assms(1), of a b] assms(2) by linarith

lemma consistent_flip': 
  assumes "consistent_cmp cmp" "cmp a b \<le> 0" shows "0 \<le> cmp b a"
  using consistent_sign [OF assms(1), of b a] assms(2) by linarith

lemma consistent_trans:
  "consistent_cmp cmp \<Longrightarrow> cmp a b \<le> 0 \<Longrightarrow> cmp b c \<le> 0 \<Longrightarrow> cmp a c \<le> 0"
  unfolding consistent_cmp_def by blast

lemma consistent_neg: 
  assumes "consistent_cmp cmp" shows "consistent_cmp (\<lambda>a b. - cmp a b)"
proof -
  have 1: "(- cmp a b < 0) = (0 < - cmp b a)" for a b
    using consistent_sign [OF assms, of b a] by simp
  have 2: "- cmp a c \<le> 0" if "- cmp a b \<le> 0" "- cmp b c \<le> 0" for a b c
  proof -
    from that have "cmp b a \<le> 0" "cmp c b \<le> 0"
      using consistent_flip [OF assms] by simp_all
    then have "cmp c a \<le> 0" using consistent_trans [OF assms] by blast
    then show ?thesis using consistent_flip' [OF assms] by simp
  qed
  show ?thesis unfolding consistent_cmp_def using 1 2 by blast
qed

lemma sorted_insert_sorted:
  assumes c: "consistent_cmp cmp" and s: "sorted_wrt (\<lambda>a b. cmp a b \<le> 0) ys"
  shows "sorted_wrt (\<lambda>a b. cmp a b \<le> 0) (insert_sorted cmp x ys)"
  using s
proof (induction ys)
  case Nil
  then show ?case by simp
next
  case (Cons y ys)
  show ?case
  proof (cases "cmp x y \<le> 0")
    case True
    have "cmp x z \<le> 0" if "z \<in> set ys" for z
      using True Cons.prems that consistent_trans [OF c] by auto
    then show ?thesis using True Cons.prems by simp
  next
    case False
    then have "cmp y x \<le> 0" using consistent_flip [OF c, of x y] by simp
    then show ?thesis using False Cons by (simp add: set_insert_sorted)
  qed
qed

lemma sorted_Array_sort:
  "consistent_cmp cmp \<Longrightarrow> sorted_wrt (\<lambda>a b. cmp a b \<le> 0) (Array_sort cmp xs)"
proof (induction xs)
  case Nil
  then show ?case by (simp add: Array_sort_def)
next
  case (Cons x xs)
  then have "sorted_wrt (\<lambda>a b. cmp a b \<le> 0) (insert_sorted cmp x (Array_sort cmp xs))"
    by (simp add: sorted_insert_sorted)
  then show ?case by (simp add: Array_sort_def)
qed

lemma no_ties_iff:
  assumes c: "consistent_cmp cmp"
  shows "no_ties cmp xs = (distinct xs \<and> (\<forall>a \<in> set xs. \<forall>b \<in> set xs. a \<noteq> b \<longrightarrow> cmp a b \<noteq> 0))"
proof (induction xs)
  case Nil
  then show ?case by simp
next
  case (Cons x xs)
  have sym: "cmp b a \<noteq> 0" if "cmp a b \<noteq> 0" for a b
    using that consistent_flip [OF c, of b a] consistent_flip' [OF c, of b a] by force
  have refl: "cmp x x = 0" by (rule consistent_refl [OF c])
  show ?case
  proof
    assume l: "no_ties cmp (x # xs)"
    then have hx: "\<forall>y \<in> set xs. cmp x y \<noteq> 0" and tl: "no_ties cmp xs"
      by (simp_all add: list_all_iff)
    have nx: "x \<notin> set xs" using hx refl by blast
    from tl Cons have dx: "distinct xs"
      and px: "\<forall>a \<in> set xs. \<forall>b \<in> set xs. a \<noteq> b \<longrightarrow> cmp a b \<noteq> 0" by simp_all
    have "cmp a b \<noteq> 0" if "a \<in> set (x # xs)" "b \<in> set (x # xs)" "a \<noteq> b" for a b
    proof (cases "a = x")
      case True
      then show ?thesis using that hx by auto
    next
      case False
      show ?thesis
      proof (cases "b = x")
        case True
        then have "cmp b a \<noteq> 0" using that False hx by auto
        then show ?thesis by (rule sym)
      next
        case bf: False
        then show ?thesis using False that px by auto
      qed
    qed
    then show "distinct (x # xs) \<and> (\<forall>a \<in> set (x # xs). \<forall>b \<in> set (x # xs). a \<noteq> b \<longrightarrow> cmp a b \<noteq> 0)"
      using nx dx by simp
  next
    assume r: "distinct (x # xs) \<and> (\<forall>a \<in> set (x # xs). \<forall>b \<in> set (x # xs). a \<noteq> b \<longrightarrow> cmp a b \<noteq> 0)"
    then have "\<forall>y \<in> set xs. cmp x y \<noteq> 0" by auto
    moreover have "no_ties cmp xs" using r Cons by simp
    ultimately show "no_ties cmp (x # xs)" by (simp add: list_all_iff)
  qed
qed

lemma sorted_wrt_distinct_strict:
  "sorted_wrt P xs \<Longrightarrow> distinct xs \<Longrightarrow> sorted_wrt (\<lambda>a b. P a b \<and> a \<noteq> b) xs"
  by (induction xs) auto

lemma sorted_wrt_unique:
  assumes asym: "\<And>a b. R a b \<Longrightarrow> \<not> R b a"
  shows "sorted_wrt R xs \<Longrightarrow> sorted_wrt R ys \<Longrightarrow> mset xs = mset ys \<Longrightarrow> xs = ys"
proof (induction xs arbitrary: ys)
  case Nil
  then show ?case by simp
next
  case (Cons x xs)
  then obtain y ys' where ys: "ys = y # ys'" by (cases ys) auto
  have xy: "x = y"
  proof (rule ccontr)
    assume neq: "x \<noteq> y"
    have "x \<in> set ys" using Cons.prems(3) by (metis list.set_intros(1) mset_eq_setD)
    then have "x \<in> set ys'" using neq ys by simp
    then have 1: "R y x" using Cons.prems(2) ys by simp
    have "y \<in> set (x # xs)" using Cons.prems(3) ys by (metis list.set_intros(1) mset_eq_setD)
    then have "y \<in> set xs" using neq by simp
    then have "R x y" using Cons.prems(1) by simp
    then show False using 1 asym by blast
  qed
  have "mset xs = mset ys'" using Cons.prems(3) ys xy by simp
  then have "xs = ys'" using Cons.IH Cons.prems ys by simp
  then show ?case using xy ys by simp
qed

lemma rev_sort_asc_eq_sort_desc:
  assumes c: "consistent_cmp cmp" and nt: "no_ties cmp xs"
  shows "rev (Array_sort cmp xs) = Array_sort (\<lambda>a b. - cmp a b) xs"
proof -
  let ?asc = "Array_sort cmp xs" and ?desc = "Array_sort (\<lambda>a b. - cmp a b) xs"
  let ?Q = "\<lambda>a b. 0 < cmp a b"
  from nt have d: "distinct xs" and ne: "\<And>a b. a \<in> set xs \<Longrightarrow> b \<in> set xs \<Longrightarrow> a \<noteq> b \<Longrightarrow> cmp a b \<noteq> 0"
    using no_ties_iff [OF c, of xs] by auto
  have ma: "mset ?asc = mset xs" and md: "mset ?desc = mset xs"
    by (simp_all add: mset_Array_sort)
  have sa: "set ?asc = set xs" and sd: "set ?desc = set xs"
    using ma md by (metis set_mset_mset)+
  have da: "distinct ?asc" and dd: "distinct ?desc"
    using mset_eq_imp_distinct_iff [OF ma] mset_eq_imp_distinct_iff [OF md] d by simp_all
  have "sorted_wrt (\<lambda>a b. cmp a b \<le> 0 \<and> a \<noteq> b) ?asc"
    using sorted_Array_sort [OF c] da by (rule sorted_wrt_distinct_strict)
  then have "sorted_wrt (\<lambda>a b. cmp a b < 0) ?asc"
    by (rule sorted_wrt_mono_rel [rotated]) (use ne sa in force)
  then have "sorted_wrt (\<lambda>a b. cmp b a < 0) (rev ?asc)"
    by (simp add: sorted_wrt_rev)
  then have 1: "sorted_wrt ?Q (rev ?asc)"
    by (rule sorted_wrt_mono_rel [rotated]) (use consistent_sign [OF c] in simp)
  have "sorted_wrt (\<lambda>a b. - cmp a b \<le> 0 \<and> a \<noteq> b) ?desc"
    using sorted_Array_sort [OF consistent_neg [OF c]] dd by (rule sorted_wrt_distinct_strict)
  then have 2: "sorted_wrt ?Q ?desc"
    by (rule sorted_wrt_mono_rel [rotated]) (use ne sd in force)
  have asym: "\<And>a b. ?Q a b \<Longrightarrow> \<not> ?Q b a"
  proof -
    fix a b assume "0 < cmp a b"
    then have "cmp b a < 0" using consistent_sign [OF c, of b a] by simp
    then show "\<not> 0 < cmp b a" by simp
  qed
  show ?thesis
  proof (rule sorted_wrt_unique [of ?Q, OF asym 1 2])
    show "mset (rev ?asc) = mset ?desc" using ma md by simp
  qed
qed

lemma consistent_cmp_difference: "consistent_cmp (\<lambda>a b. f a - (f b :: rat))"
  unfolding consistent_cmp_def by auto

lemma consistent_cmp_on: "consistent_cmp cmp \<Longrightarrow> consistent_cmp (\<lambda>a b. cmp (f a) (f b))"
  unfolding consistent_cmp_def by blast

lemma consistent_comparison:
  assumes "consistent_localeCompare rt"
  shows "consistent_cmp (comparison rt sortBy)"
proof (cases sortBy)
  case DateAdded
  have "comparison rt DateAdded = (\<lambda>a b. of_int (getTime rt (dateAdded a)) - of_int (getTime rt (dateAdded b)))"
    by (simp add: comparison_def fun_eq_iff)
  then show ?thesis using DateAdded consistent_cmp_difference [of "\<lambda>a. of_int (getTime rt (dateAdded a))"] by simp
next
  case Rating
  have "comparison rt Rating = (\<lambda>a b. getAverageRating a - getAverageRating b)"
    by (simp add: comparison_def fun_eq_iff)
  then show ?thesis using Rating consistent_cmp_difference [of getAverageRating] by simp
next
  case Title
  have "comparison rt Title = (\<lambda>a b. of_int (localeCompare rt (title a) (title b)))"
    by (simp add: comparison_def fun_eq_iff)
  then show ?thesis
    using Title assms consistent_cmp_on [of "\<lambda>a b. of_int (localeCompare rt a b)" title]
    by (simp add: consistent_localeCompare_def)
next
  case Author
  have "comparison rt Author = (\<lambda>a b. of_int (localeCompare rt (author a) (author b)))"
    by (simp add: comparison_def fun_eq_iff)
  then show ?thesis
    using Author assms consistent_cmp_on [of "\<lambda>a b. of_int (localeCompare rt a b)" author]
    by (simp add: consistent_localeCompare_def)
qed

lemma no_ties_mset:
  assumes c: "consistent_cmp cmp" and m: "mset xs = mset ys" and nt: "no_ties cmp xs"
  shows "no_ties cmp ys"
proof -
  have "set xs = set ys" using m by (rule mset_eq_setD)
  moreover have "distinct xs = distinct ys" using m by (rule mset_eq_imp_distinct_iff)
  ultimately show ?thesis using nt no_ties_iff [OF c, of xs] no_ties_iff [OF c, of ys] by simp
qed

text \<open>
  Stability: the elements that compare as equal to a given one come out in their input
  order, for the comparison function and for its negation.
\<close>

lemma consistent_equal_trans:
  assumes c: "consistent_cmp cmp" and "cmp x a = 0" and "cmp x y = 0"
  shows "cmp a y = 0"
proof -
  have ax: "cmp a x = 0"
    using consistent_flip [OF c, of x a] consistent_flip' [OF c, of x a] assms(2) by simp
  have yx: "cmp y x = 0"
    using consistent_flip [OF c, of x y] consistent_flip' [OF c, of x y] assms(3) by simp
  have 1: "cmp a y \<le> 0" using consistent_trans [OF c, of a x y] ax assms(3) by simp
  have "cmp y a \<le> 0" using consistent_trans [OF c, of y x a] yx assms(2) by simp
  then have "0 \<le> cmp a y" by (rule consistent_flip' [OF c])
  then show ?thesis using 1 by simp
qed

lemma filter_equal_insert_sorted:
  assumes c: "consistent_cmp cmp"
  shows "filter (\<lambda>y. cmp x y = 0) (insert_sorted cmp a ys) = filter (\<lambda>y. cmp x y = 0) (a # ys)"
proof (induction ys)
  case Nil
  then show ?case by simp
next
  case (Cons y ys)
  show ?case
  proof (cases "cmp a y \<le> 0")
    case True
    then show ?thesis by simp
  next
    case False
    then have "\<not> (cmp x a = 0 \<and> cmp x y = 0)"
      using consistent_equal_trans [OF c, of x a y] by auto
    then show ?thesis using False Cons by auto
  qed
qed

lemma filter_equal_Array_sort:
  assumes c: "consistent_cmp cmp"
  shows "filter (\<lambda>y. cmp x y = 0) (Array_sort cmp xs) = filter (\<lambda>y. cmp x y = 0) xs"
proof (induction xs)
  case Nil
  then show ?case by (simp add: Array_sort_def)
next
  case (Cons a xs)
  have "filter (\<lambda>y. cmp x y = 0) (Array_sort cmp (a # xs))
        = filter (\<lambda>y. cmp x y = 0) (insert_sorted cmp a (Array_sort cmp xs))"
    by (simp add: Array_sort_def)
  also have "\<dots> = filter (\<lambda>y. cmp x y = 0) (a # Array_sort cmp xs)"
    by (rule filter_equal_insert_sorted [OF c])
  finally show ?case using Cons by simp
qed

lemma filter_equal_Array_sort_neg:
  assumes c: "consistent_cmp cmp"
  shows "filter (\<lambda>y. cmp x y = 0) (Array_sort (\<lambda>a b. - cmp a b) xs) = filter (\<lambda>y. cmp x y = 0) xs"
  using filter_equal_Array_sort [OF consistent_neg [OF c], of x xs] by simp

section \<open>Filtering\<close>

lemma filteredBooks_eq:
  "filteredBooks rt books q sf shf tf sb sd =
     Array_sort (compareBooks rt sb sd) (filter (keeps rt q sf shf tf) books)"
  unfolding filteredBooks_def Let_def keeps_def
  by (auto split: StatusFilter.splits option.splits intro!: arg_cong [where f = "Array_sort _"] filter_cong)

lemma compareBooks_Asc: "compareBooks rt sb Asc = comparison rt sb"
  by (simp add: compareBooks_def fun_eq_iff)

lemma compareBooks_Desc: "compareBooks rt sb Desc = (\<lambda>a b. - comparison rt sb a b)"
  by (simp add: compareBooks_def fun_eq_iff)

text \<open>
  Claim C5. With the status filter on "reading" and the shelf filter on the built-in
  shelf "read" the view is empty, for every collection, query, tag filter and sort order:
  the two filters are applied one after the other and no status satisfies both.
\<close>

theorem C5_status_reading_shelf_read_empty:
  "filteredBooks rt books q (Only Reading) ''read'' tf sb sd = []"
proof -
  have "filter (keeps rt q (Only Reading) ''read'' tf) books = []"
    by (auto simp: filter_empty_conv keeps_def builtinShelves_def)
  then show ?thesis by (simp add: filteredBooks_eq Array_sort_def)
qed

text \<open>
  The two filters on three books: together they leave nothing, each alone leaves one.
\<close>

theorem C5_witness:
  "filteredBooks example_runtime [book_dune, book_middlemarch, book_ulysses] [] (Only Reading) ''read''
     None DateAdded Desc = []
   \<and> filteredBooks example_runtime [book_dune, book_middlemarch, book_ulysses] [] (Only Reading) ''all''
     None DateAdded Desc = [book_middlemarch]
   \<and> filteredBooks example_runtime [book_dune, book_middlemarch, book_ulysses] [] All ''read''
     None DateAdded Desc = [book_dune]"
  using C5_status_reading_shelf_read_empty
    [of example_runtime "[book_dune, book_middlemarch, book_ulysses]" "[]" None DateAdded Desc]
  by (simp add: filteredBooks_def Array_sort_def builtinShelves_def
        book_dune_def book_middlemarch_def book_ulysses_def)

text \<open>
  Claim C6. For every input and every combination of the parameters, the view is a
  sub-multiset of the collection: each of its elements is an element of the input, and
  no book occurs more often in the view than in the input.
\<close>

theorem C6_output_sub_multiset:
  "mset (filteredBooks rt books q sf shf tf sb sd) \<subseteq># mset books
   \<and> set (filteredBooks rt books q sf shf tf sb sd) \<subseteq> set books"
proof -
  have m: "mset (filteredBooks rt books q sf shf tf sb sd) \<subseteq># mset books"
    by (simp add: filteredBooks_eq mset_Array_sort)
  then have "set_mset (mset (filteredBooks rt books q sf shf tf sb sd)) \<subseteq> set_mset (mset books)"
    by (rule set_mset_mono)
  then show ?thesis using m by simp
qed

text \<open>A collection that holds one book twice: the view holds it twice, not more.\<close>

theorem C6_witness:
  "mset (filteredBooks example_runtime [book_dune, book_emma, book_dune] ''e'' All ''all''
           (Some ''Classic'') Title Asc) \<subseteq># mset [book_dune, book_emma, book_dune]
   \<and> filteredBooks example_runtime [book_dune, book_emma, book_dune] ''e'' All ''all''
           (Some ''Classic'') Title Asc = [book_dune, book_dune, book_emma]"
proof -
  have "filteredBooks example_runtime [book_dune, book_emma, book_dune] ''e'' All ''all''
           (Some ''Classic'') Title Asc = [book_dune, book_dune, book_emma]"
    by (simp add: filteredBooks_def Array_sort_def builtinShelves_def matchesQuery_def
        compareBooks_def comparison_def example_runtime_def book_dune_def book_emma_def)
  then show ?thesis
    using C6_output_sub_multiset [of example_runtime "[book_dune, book_emma, book_dune]" "''e''" All "''all''" "Some ''Classic''" Title Asc]
    by simp
qed

text \<open>
  Claim C3, amended. For every sort key and a consistent comparison of strings: if no
  two books of the ascending view compare as equal under the key, then reversing the
  ascending view gives the descending view; and in both directions the books that
  compare as equal to a given book \<open>x\<close> stand in the order in which the filtered input
  holds them (so the two directions agree on them, and the reversal fails as soon as two
  books tie).
\<close>

theorem C3_reverse_asc_is_desc_without_ties:
  assumes "consistent_localeCompare rt"
  shows "(no_ties (comparison rt sb) (filteredBooks rt books q sf shf tf sb Asc) \<longrightarrow>
            rev (filteredBooks rt books q sf shf tf sb Asc) = filteredBooks rt books q sf shf tf sb Desc)
         \<and> filter (\<lambda>y. comparison rt sb x y = 0) (filteredBooks rt books q sf shf tf sb Asc)
             = filter (\<lambda>y. comparison rt sb x y = 0) (filter (keeps rt q sf shf tf) books)
         \<and> filter (\<lambda>y. comparison rt sb x y = 0) (filteredBooks rt books q sf shf tf sb Desc)
             = filter (\<lambda>y. comparison rt sb x y = 0) (filter (keeps rt q sf shf tf) books)"
proof -
  let ?xs = "filter (keeps rt q sf shf tf) books"
  have c: "consistent_cmp (comparison rt sb)" using assms(1) by (rule consistent_comparison)
  have 1: "rev (filteredBooks rt books q sf shf tf sb Asc) = filteredBooks rt books q sf shf tf sb Desc"
    if nt: "no_ties (comparison rt sb) (filteredBooks rt books q sf shf tf sb Asc)"
  proof -
    have "mset (Array_sort (comparison rt sb) ?xs) = mset ?xs" by (rule mset_Array_sort)
    then have "no_ties (comparison rt sb) ?xs"
      using nt no_ties_mset [OF c] by (simp add: filteredBooks_eq compareBooks_Asc)
    then have "rev (Array_sort (comparison rt sb) ?xs) = Array_sort (\<lambda>a b. - comparison rt sb a b) ?xs"
      by (rule rev_sort_asc_eq_sort_desc [OF c])
    then show ?thesis by (simp add: filteredBooks_eq compareBooks_Asc compareBooks_Desc)
  qed
  have 2: "filter (\<lambda>y. comparison rt sb x y = 0) (filteredBooks rt books q sf shf tf sb Asc)
             = filter (\<lambda>y. comparison rt sb x y = 0) ?xs"
    unfolding filteredBooks_eq compareBooks_Asc by (rule filter_equal_Array_sort [OF c])
  have 3: "filter (\<lambda>y. comparison rt sb x y = 0) (filteredBooks rt books q sf shf tf sb Desc)
             = filter (\<lambda>y. comparison rt sb x y = 0) ?xs"
    unfolding filteredBooks_eq compareBooks_Desc by (rule filter_equal_Array_sort_neg [OF c])
  show ?thesis using 1 2 3 by blast
qed

text \<open>
  Claim C3 as stated fails: two books by the same author compare as equal under the key
  "author"; both directions return them in input order, so the reversed ascending view
  is not the descending view.
\<close>

theorem C3_counterexample:
  "filteredBooks example_runtime [book_emma, book_persuasion] [] All ''all'' None Author Asc
     = [book_emma, book_persuasion]
   \<and> filteredBooks example_runtime [book_emma, book_persuasion] [] All ''all'' None Author Desc
     = [book_emma, book_persuasion]
   \<and> rev (filteredBooks example_runtime [book_emma, book_persuasion] [] All ''all'' None Author Asc)
     \<noteq> filteredBooks example_runtime [book_emma, book_persuasion] [] All ''all'' None Author Desc"
  by (simp add: filteredBooks_def Array_sort_def compareBooks_def comparison_def builtinShelves_def
        example_runtime_def book_emma_def book_persuasion_def)

lemma example_localeCompare: "consistent_localeCompare example_runtime"
proof -
  have "consistent_cmp (\<lambda>a b :: string. if a = b then 0 else if a < b then - 1 else (1::rat))"
    unfolding consistent_cmp_def by auto
  moreover have "(\<lambda>a b. rat_of_int (localeCompare example_runtime a b))
      = (\<lambda>a b :: string. if a = b then 0 else if a < b then - 1 else (1::rat))"
    by (simp add: example_runtime_def fun_eq_iff)
  ultimately show ?thesis by (simp add: consistent_localeCompare_def)
qed

lemma example_sorted_by_title: "filteredBooks example_runtime [book_dune, book_emma, book_ulysses] [] All ''all'' None Title Asc
             = [book_dune, book_emma, book_ulysses]"
    by (simp add: filteredBooks_def Array_sort_def compareBooks_def comparison_def builtinShelves_def
        example_runtime_def book_dune_def book_emma_def book_ulysses_def)

lemma example_titles_no_ties: "no_ties (comparison example_runtime Title) [book_dune, book_emma, book_ulysses]"
    by (simp add: comparison_def example_runtime_def book_dune_def book_emma_def book_ulysses_def)

text \<open>The hypotheses of C3 hold for three books with different titles.\<close>

theorem C3_witness:
  "consistent_localeCompare example_runtime
   \<and> no_ties (comparison example_runtime Title)
       (filteredBooks example_runtime [book_dune, book_emma, book_ulysses] [] All ''all'' None Title Asc)
   \<and> rev (filteredBooks example_runtime [book_dune, book_emma, book_ulysses] [] All ''all'' None Title Asc)
       = filteredBooks example_runtime [book_dune, book_emma, book_ulysses] [] All ''all'' None Title Desc"
proof -
  have h: "no_ties (comparison example_runtime Title)
       (filteredBooks example_runtime [book_dune, book_emma, book_ulysses] [] All ''all'' None Title Asc)"
    using example_titles_no_ties by (simp only: example_sorted_by_title)
  show ?thesis
    using example_localeCompare h
      C3_reverse_asc_is_desc_without_ties [OF example_localeCompare, where sb = Title
                and books = "[book_dune, book_emma, book_ulysses]" and q = "[]" and sf = All
                and shf = "''all''" and tf = None and x = book_dune]
    by simp
qed

section \<open>Statistics\<close>

lemma stats_counts_partition:
  "length (filter (\<lambda>b. status b = Read) books)
   + length (filter (\<lambda>b. status b = Reading) books)
   + length (filter (\<lambda>b. status b = Want_to_read) books) = length books"
proof (induction books)
  case Nil
  then show ?case by simp
next
  case (Cons b books)
  then show ?case by (cases "status b") simp_all
qed

text \<open>
  Claim C10. The three status counts of the statistics add up to the number of books.
\<close>

theorem C10_status_counts_partition:
  "totalRead (stats rt books) + totalReading (stats rt books) + totalWantToRead (stats rt books)
   = length books"
  using stats_counts_partition [of books] by (simp add: stats_def Let_def)

text \<open>Two read books, one being read, one unread.\<close>

theorem C10_witness:
  "totalRead (stats example_runtime [book_dune, book_emma, book_ulysses, book_middlemarch]) = 2
   \<and> totalReading (stats example_runtime [book_dune, book_emma, book_ulysses, book_middlemarch]) = 1
   \<and> totalWantToRead (stats example_runtime [book_dune, book_emma, book_ulysses, book_middlemarch]) = 1
   \<and> totalRead (stats example_runtime [book_dune, book_emma, book_ulysses, book_middlemarch])
     + totalReading (stats example_runtime [book_dune, book_emma, book_ulysses, book_middlemarch])
     + totalWantToRead (stats example_runtime [book_dune, book_emma, book_ulysses, book_middlemarch])
     = length [book_dune, book_emma, book_ulysses, book_middlemarch]"
  using C10_status_counts_partition [of example_runtime "[book_dune, book_emma, book_ulysses, book_middlemarch]"]
  by (simp add: stats_def Let_def book_dune_def book_emma_def book_ulysses_def book_middlemarch_def)

lemma increment_apply:
  "increment m r k = (if k = r then map_option Suc (m k) else m k)"
  by (simp add: increment_def split: option.splits)

lemma ratingDist_fold:
  "foldl (\<lambda>dist book. let r = Math_round (getAverageRating book)
                       in if r \<ge> 1 \<and> r \<le> 5 then increment dist r else dist) m bs k
   = map_option (\<lambda>c. c + length (filter (\<lambda>b. 1 \<le> k \<and> k \<le> 5 \<and> Math_round (getAverageRating b) = k) bs))
       (m k)"
proof (induction bs arbitrary: m)
  case Nil
  then show ?case by (simp add: option.map_ident)
next
  case (Cons b bs)
  let ?step = "\<lambda>dist book. let r = Math_round (getAverageRating book)
                            in if r \<ge> 1 \<and> r \<le> 5 then increment dist r else dist"
  let ?P = "\<lambda>b. 1 \<le> k \<and> k \<le> 5 \<and> Math_round (getAverageRating b) = k"
  have "foldl ?step m (b # bs) k = foldl ?step (?step m b) bs k"
    by (simp only: foldl_Cons)
  also have "\<dots> = map_option (\<lambda>c. c + length (filter ?P bs)) (?step m b k)"
    by (rule Cons)
  also have "\<dots> = map_option (\<lambda>c. c + length (filter ?P (b # bs))) (m k)"
    by (cases "m k") (auto simp: Let_def increment_apply)
  finally show ?case .
qed

lemma ratingDist_of_apply:
  "ratingDist_of bs k =
     (if 1 \<le> k \<and> k \<le> 5
      then Some (length (filter (\<lambda>b. Math_round (getAverageRating b) = k) bs)) else None)"
  unfolding ratingDist_of_def ratingDist_fold
  by auto

lemma floor_rat_numeral: "\<lfloor>(numeral a :: rat) / numeral b\<rfloor> = numeral a div numeral b"
  by (metis floor_divide_of_int_eq of_int_numeral)

lemma Math_round_average_range:
  assumes "reviews b \<noteq> []" and "\<forall>r \<in> set (reviews b). 1 \<le> rating r \<and> rating r \<le> 5"
  shows "1 \<le> Math_round (getAverageRating b) \<and> Math_round (getAverageRating b) \<le> 5"
proof -
  let ?rs = "reviews b"
  let ?s = "sum_list (map rating ?rs)"
  have npos: "(0::rat) < of_nat (length ?rs)" using assms(1) by simp
  have avg: "getAverageRating b = of_int ?s / of_nat (length ?rs)"
    using assms(1) by (simp add: getAverageRating_def foldl_rating_sum)
  from sum_list_rating_bounds [OF assms(2)]
  have "(of_int (int (length ?rs)) :: rat) \<le> of_int ?s" "(of_int ?s :: rat) \<le> of_int (5 * int (length ?rs))"
    by (simp_all only: of_int_le_iff)
  then have "(of_nat (length ?rs) :: rat) \<le> of_int ?s" "(of_int ?s :: rat) \<le> 5 * of_nat (length ?rs)"
    by simp_all
  then have "1 \<le> getAverageRating b" "getAverageRating b \<le> 5"
    using npos avg by (simp_all add: le_divide_eq divide_le_eq)
  then have "(1::rat) + 1 / 2 \<le> getAverageRating b + 1 / 2" "getAverageRating b + 1 / 2 \<le> 5 + 1 / 2"
    by simp_all
  then have "\<lfloor>(1::rat) + 1 / 2\<rfloor> \<le> \<lfloor>getAverageRating b + 1 / 2\<rfloor>"
    "\<lfloor>getAverageRating b + 1 / 2\<rfloor> \<le> \<lfloor>(5::rat) + 1 / 2\<rfloor>"
    by (simp_all only: floor_mono)
  moreover have "\<lfloor>(1::rat) + 1 / 2\<rfloor> = 1" "\<lfloor>(5::rat) + 1 / 2\<rfloor> = 5"
    by (simp_all add: floor_rat_numeral)
  ultimately show ?thesis by (simp add: Math_round_def)
qed

text \<open>
  Claim C1, amended. The counter \<open>k\<close> of the rating distribution, for \<open>k\<close> from 1 to 5,
  is the number of books with status read and at least one review whose average rating
  rounds (half up) to \<open>k\<close>; there is no other counter. A rounded average outside 1..5
  is dropped, not clamped. When all ratings lie in 1..5, the rounded average of every
  such book lies in 1..5, so each is counted in exactly one counter.
\<close>

theorem C1_ratingDist_read_books_no_clamp:
  "ratingDist (stats rt books) k =
     (if 1 \<le> k \<and> k \<le> 5
      then Some (length (filter (\<lambda>b. status b = Read \<and> reviews b \<noteq> []
                                   \<and> Math_round (getAverageRating b) = k) books))
      else None)
   \<and> ((\<forall>b \<in> set books. \<forall>r \<in> set (reviews b). 1 \<le> rating r \<and> rating r \<le> 5) \<longrightarrow>
        (\<forall>b \<in> set books. status b = Read \<and> reviews b \<noteq> [] \<longrightarrow>
           1 \<le> Math_round (getAverageRating b) \<and> Math_round (getAverageRating b) \<le> 5))"
proof -
  have "(\<lambda>b. (length (reviews b) > 0 \<and> status b = Read) \<and> Math_round (getAverageRating b) = k)
        = (\<lambda>b. status b = Read \<and> reviews b \<noteq> [] \<and> Math_round (getAverageRating b) = k)"
    by auto
  then have 1: "ratingDist (stats rt books) k =
     (if 1 \<le> k \<and> k \<le> 5
      then Some (length (filter (\<lambda>b. status b = Read \<and> reviews b \<noteq> []
                                   \<and> Math_round (getAverageRating b) = k) books))
      else None)"
    by (simp add: stats_def Let_def ratingDist_of_apply conj_commute)
  show ?thesis using 1 Math_round_average_range by blast
qed

text \<open>
  Claim C1 as stated fails: a book that is being read and has one review with rating 4
  is in no counter, where the specification's distribution counts it under 4.
\<close>

theorem C1_counterexample:
  "ratingDist (stats example_runtime [book_middlemarch]) 4 = Some 0
   \<and> ratingDistribution_spec [book_middlemarch] 4 = 1
   \<and> ratingDist (stats example_runtime [book_middlemarch]) 4
       \<noteq> Some (ratingDistribution_spec [book_middlemarch] 4)"
  by (simp add: stats_def ratingDist_of_def ratingDistribution_spec_def book_middlemarch_def
        getAverageRating_def Math_round_def floor_rat_numeral)

text \<open>
  A read book whose only review was stored without a rating (the server stores 0) has
  the rounded average 0: the code counts it nowhere, a clamp would count it under 1.
\<close>

lemma rating_zero_is_dropped:
  "ratingDist (stats example_runtime [book_unrated]) 1 = Some 0
   \<and> ratingDistribution_spec [book_unrated] 1 = 1"
  by (simp add: stats_def ratingDist_of_def ratingDistribution_spec_def book_unrated_def
        getAverageRating_def Math_round_def Let_def increment_def)

text \<open>
  The scenario of the specification: two read books rated 5 and 3 and one unread book
  without reviews.
\<close>

theorem C1_witness:
  "ratingDist (stats example_runtime [book_dune, book_emma, book_ulysses]) 5 = Some 1
   \<and> ratingDist (stats example_runtime [book_dune, book_emma, book_ulysses]) 3 = Some 1
   \<and> ratingDist (stats example_runtime [book_dune, book_emma, book_ulysses]) 4 = Some 0
   \<and> Math_round (getAverageRating book_dune) = 5"
  using C1_ratingDist_read_books_no_clamp [of example_runtime "[book_dune, book_emma, book_ulysses]" 5]
    C1_ratingDist_read_books_no_clamp [of example_runtime "[book_dune, book_emma, book_ulysses]" 3]
    C1_ratingDist_read_books_no_clamp [of example_runtime "[book_dune, book_emma, book_ulysses]" 4]
  by (simp add: book_dune_def book_emma_def book_ulysses_def
        getAverageRating_def Math_round_def floor_rat_numeral)

subsection \<open>Tag counts\<close>

lemma sum_counts_update:
  "sum_counts tc = Some n \<Longrightarrow>
   sum_counts (AList.update t (Count (case map_of tc t of Some (Count m) \<Rightarrow> m + 1 | _ \<Rightarrow> 1)) tc)
     = Some (n + 1)"
proof (induction tc arbitrary: n rule: sum_counts.induct)
  case 1
  then show ?case by simp
next
  case (2 k c kvs)
  then show ?case by (cases "k = t") auto
next
  case (3 k kvs)
  then show ?case by simp
qed

lemma sum_counts_no_Text: "sum_counts tc = Some n \<Longrightarrow> map_of tc t \<noteq> Some Text"
  by (induction tc arbitrary: n rule: sum_counts.induct) (auto split: if_splits)

lemma sum_counts_countTag:
  assumes "sum_counts tc = Some n" and "t \<notin> set object_prototype_keys"
  shows "sum_counts (countTag tc t) = Some (n + 1)"
proof (cases "map_of tc t")
  case None
  then show ?thesis using assms sum_counts_update [OF assms(1), of t] by (simp add: countTag_def)
next
  case (Some v)
  then obtain m where "v = Count m" using sum_counts_no_Text [OF assms(1), of t] by (cases v) auto
  then show ?thesis using Some sum_counts_update [OF assms(1), of t] by (simp add: countTag_def)
qed

lemma sum_counts_tags:
  "sum_counts tc = Some n \<Longrightarrow> \<forall>t \<in> set ts. t \<notin> set object_prototype_keys \<Longrightarrow>
   sum_counts (foldl countTag tc ts) = Some (n + length ts)"
proof (induction ts arbitrary: tc n)
  case Nil
  then show ?case by simp
next
  case (Cons t ts)
  have "sum_counts (countTag tc t) = Some (n + 1)"
    using Cons.prems by (simp add: sum_counts_countTag)
  then have "sum_counts (foldl countTag (countTag tc t) ts) = Some (n + 1 + length ts)"
    using Cons.IH Cons.prems(2) by simp
  then show ?case by simp
qed

lemma sum_counts_books:
  "sum_counts tc = Some n \<Longrightarrow>
   \<forall>b \<in> set books. \<forall>t \<in> set (tags b). t \<notin> set object_prototype_keys \<Longrightarrow>
   sum_counts (foldl (\<lambda>tagCounts book. foldl countTag tagCounts (tags book)) tc books)
     = Some (n + sum_list (map (\<lambda>b. length (tags b)) books))"
proof (induction books arbitrary: tc n)
  case Nil
  then show ?case by simp
next
  case (Cons b books)
  have "sum_counts (foldl countTag tc (tags b)) = Some (n + length (tags b))"
    using Cons.prems by (simp add: sum_counts_tags)
  then have "sum_counts (foldl (\<lambda>tagCounts book. foldl countTag tagCounts (tags book))
                 (foldl countTag tc (tags b)) books)
             = Some (n + length (tags b) + sum_list (map (\<lambda>b. length (tags b)) books))"
    using Cons.IH Cons.prems(2) by simp
  then show ?case by (simp add: add.assoc)
qed

text \<open>
  Apart from the names that \<^verbatim>\<open>Object.prototype\<close> defines, the counts are numbers and add
  up to the number of tag occurrences, whatever the status of the books.
\<close>

lemma tagCounts_sum_without_prototype_keys:
  assumes "\<forall>b \<in> set books. \<forall>t \<in> set (tags b). t \<notin> set object_prototype_keys"
  shows "sum_counts (tagCounts_of books) = Some (sum_list (map (\<lambda>b. length (tags b)) books))"
  using sum_counts_books [of "[]" 0 books] assms by (simp add: tagCounts_of_def)

text \<open>
  Claim C8, at the input where the code departs from it. A tag that is the name of a
  property of \<^verbatim>\<open>Object.prototype\<close> (here \<^verbatim>\<open>constructor\<close>) does not get the count 1: its
  entry is a piece of text, in \<^verbatim>\<open>tagCounts\<close> and in the \<^verbatim>\<open>topTags\<close> of the stats, so the
  counts do not add up to the two tag occurrences of the book.
\<close>

theorem C8_prototype_key_not_counted:
  "tagCounts_of [book_patterns] = [(''Programming'', Count 1), (''constructor'', Text)]
   \<and> topTags (stats example_runtime [book_patterns]) = [(''Programming'', Count 1), (''constructor'', Text)]
   \<and> sum_counts (tagCounts_of [book_patterns]) = None
   \<and> length (tags book_patterns) = 2"
  by (simp add: tagCounts_of_def countTag_def object_prototype_keys_def book_patterns_def
        stats_def Let_def topTags_of_def Object_entries_def is_array_index_def is_digit_def
        Array_sort_def)

section \<open>Reading goal\<close>

text \<open>
  Claim C2. After every run of the sync operation (the handler of
  routes/reading-goal.ts, the only one a request reaches) the goal of the current year
  is stored and its \<open>current\<close> is the number of all books marked read, whatever their
  date; a missing goal is created with target 24, so no read book and no goal give
  current 0 and target 24; an existing goal keeps its other fields, and the goals of
  other years are left alone.
\<close>

theorem C2_sync_counts:
  "fst (sync_reading_goal rt db_books goals) (currentYear rt) = Some (snd (sync_reading_goal rt db_books goals))
   \<and> current (snd (sync_reading_goal rt db_books goals)) = length (filter (\<lambda>b. status b = Read) db_books)
   \<and> (goals (currentYear rt) = None \<longrightarrow>
        snd (sync_reading_goal rt db_books goals)
          = \<lparr>year = currentYear rt, target = 24, current = length (filter (\<lambda>b. status b = Read) db_books)\<rparr>)
   \<and> (\<forall>g. goals (currentYear rt) = Some g \<longrightarrow>
        snd (sync_reading_goal rt db_books goals)
          = g\<lparr>current := length (filter (\<lambda>b. status b = Read) db_books)\<rparr>)
   \<and> (\<forall>y. y \<noteq> currentYear rt \<longrightarrow> fst (sync_reading_goal rt db_books goals) y = goals y)"
  by (simp add: sync_reading_goal_def upsert_current_def Let_def split: option.splits)

text \<open>
  The scenario of the specification: no read book and no goal yet gives current 0 and
  target 24.
\<close>

theorem C2_witness:
  "Map.empty (currentYear example_runtime) = (None :: ReadingGoal option)
   \<and> snd (sync_reading_goal example_runtime [book_ulysses, book_middlemarch] Map.empty)
       = \<lparr>year = 2025, target = 24, current = 0\<rparr>
   \<and> fst (sync_reading_goal example_runtime [book_ulysses, book_middlemarch] Map.empty) 2025
       = Some \<lparr>year = 2025, target = 24, current = 0\<rparr>
   \<and> current (snd (sync_reading_goal example_runtime [book_emma] Map.empty)) = 1"
  using C2_sync_counts [of example_runtime "[book_ulysses, book_middlemarch]" Map.empty]
    C2_sync_counts [of example_runtime "[book_emma]" Map.empty]
  by (simp add: sync_reading_goal_def upsert_current_def Let_def example_runtime_def book_ulysses_def book_middlemarch_def book_emma_def)

text \<open>
  The handler of routes/goals.ts, which no request reaches, would count only the books
  added in the current year: a book marked read and added in 2023 is not counted in 2025.
\<close>

lemma goals_router_counts_this_year_only:
  "status book_emma = Read
   \<and> current (snd (sync_goals example_runtime [book_emma] Map.empty)) = 0
   \<and> current (snd (sync_reading_goal example_runtime [book_emma] Map.empty)) = 1"
  by (simp add: sync_goals_def sync_reading_goal_def upsert_current_def Let_def
        example_runtime_def book_emma_def decimal_def is_digit_def)

section \<open>Status change\<close>

lemma status_updates_reading:
  "status_updates books bookId Reading = \<lparr>upd_status = Reading, upd_progress = Absent\<rparr>"
  by (simp add: status_updates_def Let_def split: option.splits)

lemma status_updates_want_to_read:
  "status_updates books bookId Want_to_read = \<lparr>upd_status = Want_to_read, upd_progress = Undefined\<rparr>"
  by (simp add: status_updates_def Let_def split: option.splits)

lemma status_updates_read:
  "status_updates books bookId Read =
     \<lparr>upd_status = Read,
      upd_progress = (case find (\<lambda>b. book_id b = bookId) books of
                        None \<Rightarrow> Absent
                      | Some b \<Rightarrow> (case totalPages b of
                                    None \<Rightarrow> Absent
                                  | Some n \<Rightarrow> if n \<noteq> 0 then Value n else Absent))\<rparr>"
  by (simp add: status_updates_def Let_def split: option.splits)

lemma find_map_update:
  "find (\<lambda>b. book_id b = bookId) (map (\<lambda>b. if book_id b = bookId then f b else b) books)
   = map_option f (find (\<lambda>b. book_id b = bookId) books)"
  if "\<And>b. book_id (f b) = book_id b"
  using that by (induction books) auto

lemma find_map_replace:
  assumes "book_id row = bookId"
  shows "find (\<lambda>b. book_id b = bookId) (map (\<lambda>b. if book_id b = bookId then row else b) books)
   = map_option (\<lambda>b. row) (find (\<lambda>b. book_id b = bookId) books)"
  using assms by (induction books) auto

text \<open>The local version clears the progress on the way back to "want to read".\<close>

lemma local_want_to_read_clears_progress:
  "progress_of bookId (handleChangeStatus_local bookId Want_to_read books) = None"
proof -
  have "book_id (spread_updates b \<lparr>upd_status = Want_to_read, upd_progress = Undefined\<rparr>) = book_id b" for b
    by (simp add: spread_updates_def)
  then show ?thesis
    by (simp add: progress_of_def handleChangeStatus_local_def handleEditBook_local_def
          status_updates_want_to_read find_map_update spread_updates_def split: option.splits)
qed

lemma find_book_id: "find (\<lambda>b. book_id b = bookId) books = Some b \<Longrightarrow> book_id b = bookId"
  by (induction books) (auto split: if_splits)

text \<open>The server version leaves the stored progress as it is.\<close>

lemma server_keeps_progress_on_want_to_read:
  assumes "handleChangeStatus_api rt bookId Want_to_read st = Inr st'"
  shows "progress_of bookId (server_books st') = progress_of bookId (server_books st)"
proof -
  obtain existing where ex: "find (\<lambda>b. book_id b = bookId) (server_books st) = Some existing"
    using assms
    by (auto simp: handleChangeStatus_api_def handleEditBook_api_def put_book_def
          split: option.splits)
  let ?row = "existing\<lparr>status := Want_to_read\<rparr>"
  have id: "book_id ?row = bookId" using find_book_id [OF ex] by simp
  have "server_books st' = map (\<lambda>b. if book_id b = bookId then ?row else b) (server_books st)"
    using assms ex
    by (auto simp: handleChangeStatus_api_def handleEditBook_api_def put_book_def
          status_updates_want_to_read JSON_stringify_parse_def Let_def split_def)
  then show ?thesis
    using ex find_map_replace [OF id, of "server_books st"] by (simp add: progress_of_def)
qed

text \<open>
  Claim C7, at the input where the code departs from it. A book with 300 pages and
  progress 120 goes from "reading" back to "want to read": the version that talks to the
  server keeps progress 120 on the server and in the client state, where the claim (and
  the comment in the code) say that the progress is cleared; the local version clears
  it.
\<close>

theorem C7_api_want_to_read_keeps_progress:
  "progress_of ''4'' (client_books example_state) = Some 120
   \<and> (case handleChangeStatus_api example_runtime ''4'' Want_to_read example_state of
         Inl e \<Rightarrow> False
       | Inr st \<Rightarrow> progress_of ''4'' (client_books st) = Some 120
                  \<and> progress_of ''4'' (server_books st) = Some 120
                  \<and> map status (client_books st) = [Read, Want_to_read])
   \<and> progress_of ''4'' (handleChangeStatus_local ''4'' Want_to_read (client_books example_state)) = None"
  by (simp add: handleChangeStatus_api_def handleEditBook_api_def put_book_def status_updates_def
        JSON_stringify_parse_def sync_reading_goal_def upsert_current_def Let_def progress_of_def
        handleChangeStatus_local_def handleEditBook_local_def spread_updates_def
        example_state_def example_runtime_def book_dune_def book_middlemarch_def)

text \<open>The transition to "read" does set the progress to the number of pages.\<close>

lemma api_read_sets_progress:
  "(case handleChangeStatus_api example_runtime ''4'' Read example_state of
         Inl e \<Rightarrow> False
       | Inr st \<Rightarrow> progress_of ''4'' (client_books st) = Some 300)"
  by (simp add: handleChangeStatus_api_def handleEditBook_api_def put_book_def status_updates_def
        JSON_stringify_parse_def sync_reading_goal_def upsert_current_def Let_def progress_of_def
        example_state_def example_runtime_def book_dune_def book_middlemarch_def)

section \<open>The input array is left alone\<close>

lemma frame_inv_spread:
  assumes "wf_store h"
  shows "frame_inv h (read_array h a) (array_spread a h)"
  using assms by (auto simp: frame_inv_def wf_store_def array_spread_def new_array_def)

lemma frame_inv_filter:
  assumes "frame_inv h0 xs rh"
  shows "frame_inv h0 (filter p xs) (array_filter p (fst rh) (snd rh))"
  using assms
  by (auto simp: frame_inv_def wf_store_def array_filter_def new_array_def read_array_def)

lemma frame_inv_sort:
  assumes "frame_inv h0 xs rh"
  shows "frame_inv h0 (Array_sort cmp xs) (fst rh, array_sort cmp (fst rh) (snd rh))"
  using assms
  by (auto simp: frame_inv_def wf_store_def array_sort_def read_array_def)

lemma frame_inv_filteredBooks:
  assumes wf: "wf_store h"
  shows "frame_inv h (filteredBooks rt (read_array h a) q sf shf tf sb sd)
           (filteredBooks_store rt a q sf shf tf sb sd h)"
proof -
  define x0 where "x0 = read_array h a"
  define s0 where "s0 = array_spread a h"
  define p1 where "p1 = matchesQuery rt (toLowerCase rt q)"
  define x1 where "x1 = (if q \<noteq> [] then filter p1 x0 else x0)"
  define s1 where "s1 = (if q \<noteq> [] then array_filter p1 (fst s0) (snd s0) else s0)"
  define x2 where "x2 = (case sf of All \<Rightarrow> x1 | Only s \<Rightarrow> filter (\<lambda>book. status book = s) x1)"
  define s2 where "s2 = (case sf of All \<Rightarrow> s1
                          | Only s \<Rightarrow> array_filter (\<lambda>book. status book = s) (fst s1) (snd s1))"
  define x3 where "x3 = (if shf \<noteq> ''all'' \<and> shf \<notin> set builtinShelves
                         then filter (\<lambda>book. shelf book = Some shf) x2
                         else if shf \<in> set builtinShelves
                         then filter (\<lambda>book. status_name (status book) = shf) x2 else x2)"
  define s3 where "s3 = (if shf \<noteq> ''all'' \<and> shf \<notin> set builtinShelves
                         then array_filter (\<lambda>book. shelf book = Some shf) (fst s2) (snd s2)
                         else if shf \<in> set builtinShelves
                         then array_filter (\<lambda>book. status_name (status book) = shf) (fst s2) (snd s2)
                         else s2)"
  define x4 where "x4 = (case tf of None \<Rightarrow> x3
                          | Some t \<Rightarrow> if t \<noteq> [] then filter (\<lambda>book. t \<in> set (tags book)) x3 else x3)"
  define s4 where "s4 = (case tf of None \<Rightarrow> s3
                          | Some t \<Rightarrow> if t \<noteq> []
                                     then array_filter (\<lambda>book. t \<in> set (tags book)) (fst s3) (snd s3)
                                     else s3)"
  have pure: "filteredBooks rt (read_array h a) q sf shf tf sb sd = Array_sort (compareBooks rt sb sd) x4"
    unfolding filteredBooks_def x4_def x3_def x2_def x1_def x0_def p1_def Let_def ..
  have st: "filteredBooks_store rt a q sf shf tf sb sd h
            = (fst s4, array_sort (compareBooks rt sb sd) (fst s4) (snd s4))"
    by (simp only: filteredBooks_store_def s4_def s3_def s2_def s1_def s0_def p1_def Let_def
          split_def prod.collapse)
  have i0: "frame_inv h x0 s0" unfolding x0_def s0_def using wf by (rule frame_inv_spread)
  have i1: "frame_inv h x1 s1" unfolding x1_def s1_def using i0 by (simp add: frame_inv_filter)
  have i2: "frame_inv h x2 s2" unfolding x2_def s2_def using i1
    by (simp add: frame_inv_filter split: StatusFilter.splits)
  have i3: "frame_inv h x3 s3" unfolding x3_def s3_def using i2 by (simp add: frame_inv_filter)
  have i4: "frame_inv h x4 s4" unfolding x4_def s4_def using i3
    by (simp add: frame_inv_filter split: option.splits)
  show ?thesis unfolding pure st using i4 by (rule frame_inv_sort)
qed

lemma array_filter_fst: "fst (array_filter p r h) = next_addr h"
  by (simp add: array_filter_def new_array_def)

lemma array_filter_next: "next_addr (snd (array_filter p r h)) = Suc (next_addr h)"
  by (simp add: array_filter_def new_array_def)

lemma array_filter_arrays:
  "arrays (snd (array_filter p r h)) b
   = (if b = next_addr h then Some (filter p (read_array h r)) else arrays h b)"
  by (simp add: array_filter_def new_array_def)

lemma array_filter_read:
  "read_array (snd (array_filter p r h)) b
   = (if b = next_addr h then filter p (read_array h r) else read_array h b)"
  by (simp add: read_array_def array_filter_arrays)

lemma stats_store_frame:
  assumes "a < next_addr h"
  shows "arrays (snd (stats_store rt a h)) a = arrays h a"
  using assms
  by (simp add: stats_store_def Let_def split_def array_filter_fst array_filter_next
        array_filter_arrays)

lemma stats_store_value:
  assumes "a < next_addr h"
  shows "fst (stats_store rt a h) = stats rt (read_array h a)"
  using assms
  by (simp add: stats_store_def stats_def Let_def split_def array_filter_fst array_filter_next
        array_filter_read)

text \<open>
  Claim C9. Computing the view or the statistics leaves the input array as it was: in a
  well-formed store, the array at the address of the input holds the same books in the
  same order afterwards. The view is a new array (its address differs from the
  input's) that holds what \<open>filteredBooks\<close> computes, and the statistics are those of
  \<open>stats\<close>.
\<close>

theorem C9_input_array_unchanged:
  assumes "wf_store h" and "arrays h a = Some bs"
  shows "arrays (snd (filteredBooks_store rt a q sf shf tf sb sd h)) a = Some bs
         \<and> read_array (snd (filteredBooks_store rt a q sf shf tf sb sd h))
              (fst (filteredBooks_store rt a q sf shf tf sb sd h))
             = filteredBooks rt bs q sf shf tf sb sd
         \<and> fst (filteredBooks_store rt a q sf shf tf sb sd h) \<noteq> a
         \<and> arrays (snd (stats_store rt a h)) a = Some bs
         \<and> fst (stats_store rt a h) = stats rt bs"
proof -
  have lt: "a < next_addr h" using assms by (auto simp: wf_store_def not_le [symmetric])
  have rd: "read_array h a = bs" using assms(2) by (simp add: read_array_def)
  have "frame_inv h (filteredBooks rt bs q sf shf tf sb sd) (filteredBooks_store rt a q sf shf tf sb sd h)"
    using frame_inv_filteredBooks [OF assms(1), of rt a q sf shf tf sb sd] rd by simp
  then have 1: "arrays (snd (filteredBooks_store rt a q sf shf tf sb sd h)) a = Some bs
         \<and> read_array (snd (filteredBooks_store rt a q sf shf tf sb sd h))
              (fst (filteredBooks_store rt a q sf shf tf sb sd h))
             = filteredBooks rt bs q sf shf tf sb sd
         \<and> fst (filteredBooks_store rt a q sf shf tf sb sd h) \<noteq> a"
    using lt assms(2) by (auto simp: frame_inv_def read_array_def)
  have 2: "arrays (snd (stats_store rt a h)) a = Some bs"
    using stats_store_frame [OF lt, of rt] assms(2) by simp
  have 3: "fst (stats_store rt a h) = stats rt bs"
    using stats_store_value [OF lt, of rt] rd by simp
  show ?thesis using 1 2 3 by simp
qed

text \<open>A store with one array of three books at address 0.\<close>

lemma example_store_wf: "wf_store example_store"
  by (simp add: wf_store_def example_store_def)

theorem C9_witness:
  "wf_store example_store
   \<and> arrays example_store 0 = Some [book_dune, book_emma, book_ulysses]
   \<and> arrays (snd (filteredBooks_store example_runtime 0 [] All ''all'' None Title Desc example_store)) 0
       = Some [book_dune, book_emma, book_ulysses]
   \<and> arrays (snd (filteredBooks_store example_runtime 0 [] All ''all'' None Title Desc example_store)) 1
       = Some [book_ulysses, book_emma, book_dune]
   \<and> arrays (snd (stats_store example_runtime 0 example_store)) 0
       = Some [book_dune, book_emma, book_ulysses]"
proof -
  have a: "arrays example_store 0 = Some [book_dune, book_emma, book_ulysses]"
    by (simp add: example_store_def)
  have "arrays (snd (filteredBooks_store example_runtime 0 [] All ''all'' None Title Desc example_store)) 1
       = Some [book_ulysses, book_emma, book_dune]"
    by (simp add: filteredBooks_store_def Let_def array_spread_def array_sort_def new_array_def
          read_array_def Array_sort_def compareBooks_def comparison_def builtinShelves_def
          example_store_def example_runtime_def book_dune_def book_emma_def book_ulysses_def)
  then show ?thesis
    using example_store_wf a
      C9_input_array_unchanged [OF example_store_wf a, of example_runtime "[]" All "''all''" None Title Desc]
    by simp
qed

end
